theory Spec2Isabelle
  imports Complex_Main "HOL-Library.Multiset"
begin

section \<open>Chronos data pipeline: windowing, pseudo-shuffling and time budgets\<close>

text \<open>
  A shallow embedding of \<^verbatim>\<open>autogluon/timeseries/models/chronos/pipeline/utils.py\<close>
  and of the context-length handling of \<^verbatim>\<open>chronos/model.py\<close>.
  Python exceptions are values of the type \<open>error\<close>; a function that may raise returns
  \<open>error + 'a\<close> with \<open>Inl\<close> for the exception.
\<close>

datatype error =
    AssertionError | IndexError | KeyError | TypeError | UnboundLocalError | TimeLimitExceeded

subsection \<open>Numeric values and numpy indexing\<close>

text \<open>
  An entry of a float array is either the missing-value sentinel \<open>NaN\<close> or a number.
  The numeric payload is left polymorphic.
\<close>

datatype 'v np_float = NaN | Val 'v

text \<open>
  The conversion of an entry to \<^verbatim>\<open>np.float32\<close>: the sentinel stays the sentinel and a
  number is rounded. The rounding of a number is done by the library; it is the argument
  \<open>f32\<close>.
\<close>

definition astype_float32 :: "('v \<Rightarrow> 'v) \<Rightarrow> 'v np_float \<Rightarrow> 'v np_float" where
  "astype_float32 f32 x = (case x of NaN \<Rightarrow> NaN | Val v \<Rightarrow> Val (f32 v))"

text \<open>
  \<^verbatim>\<open>ndarray.astype(np.int32)\<close> on 64-bit integers keeps the low 32 bits and reads them
  as a signed number.
\<close>

definition astype_int32 :: "int \<Rightarrow> int" where
  "astype_int32 x = (x + 2 ^ 31) mod 2 ^ 32 - 2 ^ 31"

text \<open>\<^verbatim>\<open>values.cumsum()\<close>: the running sums of a sequence, started from \<open>acc\<close>.\<close>

fun cumsum_from :: "int \<Rightarrow> int list \<Rightarrow> int list" where
  "cumsum_from acc [] = []"
| "cumsum_from acc (x # xs) = (acc + x) # cumsum_from (acc + x) xs"

definition cumsum :: "int list \<Rightarrow> int list" where
  "cumsum xs = cumsum_from 0 xs"

text \<open>
  A slice bound of Python and numpy: a negative bound counts from the end, and the result
  is clipped to \<open>0 .. n\<close>.
\<close>

definition slice_bound :: "nat \<Rightarrow> int \<Rightarrow> nat" where
  "slice_bound n i = (if i < 0 then nat (max 0 (int n + i)) else min n (nat i))"

text \<open>\<^verbatim>\<open>a[start:end]\<close>\<close>

definition slice :: "'a list \<Rightarrow> int \<Rightarrow> int \<Rightarrow> 'a list" where
  "slice a start end =
     (let s = slice_bound (length a) start; e = slice_bound (length a) end
      in take (e - s) (drop s a))"

text \<open>\<^verbatim>\<open>a[start:]\<close>\<close>

definition slice_from :: "'a list \<Rightarrow> int \<Rightarrow> 'a list" where
  "slice_from a start = drop (slice_bound (length a) start) a"

text \<open>\<^verbatim>\<open>a[i]\<close> on an array: a negative index counts from the end, out of range raises.\<close>

definition index :: "'a list \<Rightarrow> int \<Rightarrow> error + 'a" where
  "index a i =
     (if 0 \<le> i \<and> i < int (length a) then Inr (a ! nat i)
      else if i < 0 \<and> - int (length a) \<le> i then Inr (a ! nat (int (length a) + i))
      else Inl IndexError)"

subsection \<open>ChronosInferenceDataset\<close>

text \<open>
  Modelled from the spec: the class \<^verbatim>\<open>TimeSeriesDataFrame\<close> is not part of the files
  embedded here. Following the spec's data model (an ordered sequence of series, each an
  ordered sequence of observations, flattened by concatenation in input order), a frame is
  the list of its items' series; the target column as one array is their concatenation and
  \<^verbatim>\<open>num_timesteps_per_item()\<close> lists their lengths. \<^verbatim>\<open>to_numpy(dtype=np.float32)\<close>
  converts every entry of the column. Reading the property \<^verbatim>\<open>freq\<close> of a frame gives a
  frequency or raises; its outcome is the argument \<open>freq_read\<close> of the constructor below.
\<close>

type_synonym 'v time_series_data_frame = "'v np_float list list"

definition to_numpy :: "('v \<Rightarrow> 'v) \<Rightarrow> 'v time_series_data_frame \<Rightarrow> 'v np_float list" where
  "to_numpy f32 target_df = map (astype_float32 f32) (concat target_df)"

definition num_timesteps_per_item :: "'v time_series_data_frame \<Rightarrow> int list" where
  "num_timesteps_per_item target_df = map (\<lambda>s. int (length s)) target_df"

record ('v, 'q) chronos_inference_dataset =
  context_length :: int
  target_array :: "'v np_float list"
  freq :: 'q
  indptr :: "int list"

definition ChronosInferenceDataset ::
  "('v \<Rightarrow> 'v) \<Rightarrow> error + 'q \<Rightarrow> 'v time_series_data_frame \<Rightarrow> int
     \<Rightarrow> error + ('v, 'q) chronos_inference_dataset" where
  "ChronosInferenceDataset f32 freq_read target_df ctx_len =
     (if \<not> ctx_len > 0 then Inl AssertionError
      else
        (case freq_read of
           Inl e \<Rightarrow> Inl e
         | Inr q \<Rightarrow>
             let cum_sizes = cumsum (num_timesteps_per_item target_df)
             in Inr \<lparr> context_length = ctx_len,
                      target_array = to_numpy f32 target_df,
                      freq = q,
                      indptr = map astype_int32 (0 # cum_sizes) \<rparr>))"

definition len :: "('v, 'q) chronos_inference_dataset \<Rightarrow> int" where
  "len self = int (length (indptr self)) - 1"

definition get_context ::
  "('v, 'q) chronos_inference_dataset \<Rightarrow> 'v np_float list \<Rightarrow> 'v np_float \<Rightarrow> 'v np_float list" where
  "get_context self a pad_value =
     (let a' = slice_from a (- context_length self);
          pad_size = context_length self - int (length a')
      in if pad_size > 0 then replicate (nat pad_size) pad_value @ a' else a')"

definition getitem ::
  "('v, 'q) chronos_inference_dataset \<Rightarrow> int \<Rightarrow> error + 'v np_float list" where
  "getitem self idx =
     (case index (indptr self) idx of
        Inl e \<Rightarrow> Inl e
      | Inr start_idx \<Rightarrow>
          (case index (indptr self) (idx + 1) of
             Inl e \<Rightarrow> Inl e
           | Inr end_idx \<Rightarrow>
               Inr (get_context self (slice (target_array self) start_idx end_idx) NaN)))"

text \<open>
  Construction followed by \<^verbatim>\<open>__getitem__\<close>, as a data loader uses the class.
\<close>

definition dataset_getitem ::
  "('v \<Rightarrow> 'v) \<Rightarrow> error + 'q \<Rightarrow> 'v time_series_data_frame \<Rightarrow> int \<Rightarrow> int
     \<Rightarrow> error + 'v np_float list" where
  "dataset_getitem f32 freq_read target_df ctx_len idx =
     (case ChronosInferenceDataset f32 freq_read target_df ctx_len of
        Inl e \<Rightarrow> Inl e
      | Inr self \<Rightarrow> getitem self idx)"

subsection \<open>PseudoShuffledIterableDataset\<close>

text \<open>
  The state of a \<^verbatim>\<open>torch.Generator\<close> is the sequence of raw draws it is still going to
  produce. \<^verbatim>\<open>torch.randint(high, size=(), generator=g)\<close> reduces the next draw to
  \<open>0 ..< high\<close> and moves the generator on; every sequence of indices the library can
  return arises from some sequence of raw draws. Both calls in the source are made on a
  buffer that is not empty, so \<open>high\<close> is positive there.
\<close>

type_synonym generator = "nat \<Rightarrow> nat"

definition randint :: "nat \<Rightarrow> generator \<Rightarrow> nat" where
  "randint high g = g 0 mod high"

definition advance :: "generator \<Rightarrow> generator" where
  "advance g = (\<lambda>k. g (Suc k))"

text \<open>What \<^verbatim>\<open>shuffle_buffer.pop(idx)\<close> leaves in the buffer.\<close>

definition pop_rest :: "nat \<Rightarrow> 'a list \<Rightarrow> 'a list" where
  "pop_rest idx buf = take idx buf @ drop (Suc idx) buf"

text \<open>The second loop of \<^verbatim>\<open>__iter__\<close>: \<^verbatim>\<open>while shuffle_buffer: ...\<close>\<close>

function drain :: "generator \<Rightarrow> 'a list \<Rightarrow> 'a list" where
  "drain g shuffle_buffer =
     (if shuffle_buffer = [] then []
      else
        let idx = randint (length shuffle_buffer) g
        in shuffle_buffer ! idx # drain (advance g) (pop_rest idx shuffle_buffer))"
  by pat_completeness auto
termination
proof (relation "measure (\<lambda>(g, buf). length buf)")
  show "wf (measure (\<lambda>(g, buf). length buf))"
    by simp
next
  fix g :: generator and shuffle_buffer :: "'a list" and idx
  assume "shuffle_buffer \<noteq> []" and "idx = randint (length shuffle_buffer) g"
  then have "idx < length shuffle_buffer"
    by (simp add: randint_def)
  then show "((advance g, pop_rest idx shuffle_buffer), (g, shuffle_buffer))
               \<in> measure (\<lambda>(g, buf). length buf)"
    by (simp add: pop_rest_def)
qed

declare drain.simps [simp del]

text \<open>
  The first loop, \<^verbatim>\<open>for element in self.base_dataset: ...\<close>, followed by the second;
  the result is the sequence of yielded elements.
\<close>

fun fill :: "int \<Rightarrow> generator \<Rightarrow> 'a list \<Rightarrow> 'a list \<Rightarrow> 'a list" where
  "fill B g shuffle_buffer [] = drain g shuffle_buffer"
| "fill B g shuffle_buffer (element # rest) =
     (let shuffle_buffer' = shuffle_buffer @ [element]
      in if int (length shuffle_buffer') \<ge> B
         then
           let idx = randint (length shuffle_buffer') g
           in shuffle_buffer' ! idx # fill B (advance g) (pop_rest idx shuffle_buffer') rest
         else fill B g shuffle_buffer' rest)"

record 'd pseudo_shuffled_iterable_dataset =
  base_dataset :: 'd
  shuffle_buffer_size :: int
  generator :: generator

definition PseudoShuffledIterableDataset ::
  "'d \<Rightarrow> int \<Rightarrow> generator \<Rightarrow> 'd pseudo_shuffled_iterable_dataset" where
  "PseudoShuffledIterableDataset base B gen =
     \<lparr> base_dataset = base, shuffle_buffer_size = B, generator = gen \<rparr>"

text \<open>
  \<^verbatim>\<open>__iter__\<close>; \<open>base_iter\<close> is the iteration of the wrapped dataset, here one that
  ends (the sequence of its elements).
\<close>

definition pseudo_shuffled_iter ::
  "('d \<Rightarrow> 'a list) \<Rightarrow> 'd pseudo_shuffled_iterable_dataset \<Rightarrow> 'a list" where
  "pseudo_shuffled_iter base_iter self =
     fill (shuffle_buffer_size self) (generator self) [] (base_iter (base_dataset self))"

subsection \<open>ChronosFineTuningDataset\<close>

datatype instance_sampler =
    ExpectedNumInstanceSampler real int
  | ValidationSplitSampler int

record instance_splitter =
  instance_sampler :: instance_sampler
  past_length :: int
  future_length :: int

record 'v window =
  past_target :: "'v np_float list"
  future_target :: "'v np_float list"

text \<open>
  The two output formats. The tokenizer is a capability of the model; it is taken as a
  function from a window to the tokenised entry.
\<close>

datatype ('v, 't) formatted =
    ChronosFormat 't
  | ChronosBoltFormat "'v np_float list" "'v np_float list"

text \<open>
  The field \<open>ft_context_length\<close> is the attribute \<^verbatim>\<open>context_length\<close> of the class (the
  name is taken by the inference dataset above).
\<close>

record ('v, 't) chronos_fine_tuning_dataset =
  gluonts_dataset :: "'v time_series_data_frame"
  tokenizer :: "('v window \<Rightarrow> 't) option"
  ft_context_length :: int
  prediction_length :: int
  mode :: string

definition ChronosFineTuningDataset ::
  "'v time_series_data_frame \<Rightarrow> int \<Rightarrow> int \<Rightarrow> ('v window \<Rightarrow> 't) option \<Rightarrow> string
     \<Rightarrow> error + ('v, 't) chronos_fine_tuning_dataset" where
  "ChronosFineTuningDataset target_df ctx_len pred_len tok m =
     (if \<not> (m = ''training'' \<or> m = ''validation'') then Inl AssertionError
      else Inr \<lparr> gluonts_dataset = target_df, tokenizer = tok,
                 ft_context_length = ctx_len, prediction_length = pred_len, mode = m \<rparr>)"

definition create_instance_splitter ::
  "('v, 't) chronos_fine_tuning_dataset \<Rightarrow> string \<Rightarrow> error + instance_splitter" where
  "create_instance_splitter self m =
     (let sampler =
        (if m = ''training'' then Inr (ExpectedNumInstanceSampler 1.0 (prediction_length self))
         else if m = ''validation'' then Inr (ValidationSplitSampler (prediction_length self))
         else Inl KeyError)
      in case sampler of
           Inl e \<Rightarrow> Inl e
         | Inr s \<Rightarrow> Inr \<lparr> instance_sampler = s,
                          past_length = ft_context_length self,
                          future_length = prediction_length self \<rparr>)"

text \<open>
  Modelled from the spec: the instance samplers and the instance splitter are classes of
  the GluonTS library and are not among the embedded files, which only fix their
  parameters; both samplers are given the prediction length as \<open>min_future\<close>. A split
  point must leave at least \<open>min_future\<close> observations after it before the end of the
  series, so a series shorter than \<open>min_future\<close> has none, for either sampler. A training
  sampler picks one random split point per series among those allowed; the validation
  sampler takes the last one allowed, which leaves exactly \<open>min_future\<close> observations
  after it. \<open>r\<close> is the random draw. The spec's sentence that validation gives a window
  to every series whatever its length is not followed: the library gives none to a series
  shorter than \<open>min_future\<close>.
\<close>

definition sample_indices :: "instance_sampler \<Rightarrow> nat \<Rightarrow> nat \<Rightarrow> nat list" where
  "sample_indices sampler r L =
     (case sampler of
        ExpectedNumInstanceSampler num_instances min_future \<Rightarrow>
          if int L < min_future then [] else [r mod (L - nat min_future + 1)]
      | ValidationSplitSampler min_future \<Rightarrow>
          if int L < min_future then [] else [L - nat min_future])"

text \<open>
  Modelled from the spec: a window is cut at a split point. The context is the last
  \<open>past_length\<close> observations before the split, padded on the left with the missing-value
  sentinel; the future is the following observations, at most \<open>future_length\<close> of them.
\<close>

definition split_at :: "instance_splitter \<Rightarrow> 'v np_float list \<Rightarrow> nat \<Rightarrow> 'v window" where
  "split_at sp target i =
     (let past = take i target;
          kept = drop (length past - nat (past_length sp)) past
      in \<lparr> past_target = replicate (nat (past_length sp) - length kept) NaN @ kept,
           future_target = take (nat (future_length sp)) (drop i target) \<rparr>)"

text \<open>
  Modelled from the spec: applying the splitter to a stream yields, entry after entry and
  in the order of the entries, the windows at the sampled split points. \<open>rng k\<close> is the
  random draw for the \<open>k\<close>-th entry of the stream. The library gives up with an exception
  after more than 100 entries in a row without a window; that limit is not modelled.
\<close>

definition flatmap_transform :: "instance_splitter \<Rightarrow> nat \<Rightarrow> 'v np_float list \<Rightarrow> 'v window list" where
  "flatmap_transform sp r target =
     map (split_at sp target) (sample_indices (instance_sampler sp) r (length target))"

fun apply_transform ::
  "instance_splitter \<Rightarrow> (nat \<Rightarrow> nat) \<Rightarrow> nat \<Rightarrow> 'v np_float list list \<Rightarrow> 'v window list" where
  "apply_transform sp rng k [] = []"
| "apply_transform sp rng k (entry # rest) =
     flatmap_transform sp (rng k) entry @ apply_transform sp rng (Suc k) rest"

text \<open>
  \<^verbatim>\<open>_infinite_iterable\<close> never ends; the stream is represented by its prefixes, the first
  \<open>passes\<close> passes over the data.
\<close>

definition infinite_iterable :: "nat \<Rightarrow> 'a list \<Rightarrow> 'a list" where
  "infinite_iterable passes data = concat (replicate passes data)"

definition create_training_data ::
  "('v, 't) chronos_fine_tuning_dataset \<Rightarrow> (nat \<Rightarrow> nat) \<Rightarrow> nat \<Rightarrow> 'v time_series_data_frame
     \<Rightarrow> error + 'v window list" where
  "create_training_data self rng passes data =
     (case create_instance_splitter self ''training'' of
        Inl e \<Rightarrow> Inl e
      | Inr split_transform \<Rightarrow>
          Inr (apply_transform split_transform rng 0 (infinite_iterable passes data)))"

definition create_validation_data ::
  "('v, 't) chronos_fine_tuning_dataset \<Rightarrow> (nat \<Rightarrow> nat) \<Rightarrow> 'v time_series_data_frame
     \<Rightarrow> error + 'v window list" where
  "create_validation_data self rng data =
     (case create_instance_splitter self ''validation'' of
        Inl e \<Rightarrow> Inl e
      | Inr split_transform \<Rightarrow> Inr (apply_transform split_transform rng 0 data))"

definition to_chronos_bolt_format :: "'v window \<Rightarrow> ('v, 't) formatted" where
  "to_chronos_bolt_format entry = ChronosBoltFormat (past_target entry) (future_target entry)"

definition format_transform_fn ::
  "('v, 't) chronos_fine_tuning_dataset \<Rightarrow> 'v window \<Rightarrow> ('v, 't) formatted" where
  "format_transform_fn self =
     (case tokenizer self of
        Some tok \<Rightarrow> (\<lambda>entry. ChronosFormat (tok entry))
      | None \<Rightarrow> to_chronos_bolt_format)"

text \<open>
  \<^verbatim>\<open>__iter__\<close>: every call builds the iterable anew from the stored series and yields
  its entries, formatted, one after the other.
\<close>

definition fine_tuning_iter ::
  "('v, 't) chronos_fine_tuning_dataset \<Rightarrow> (nat \<Rightarrow> nat) \<Rightarrow> nat \<Rightarrow> error + ('v, 't) formatted list" where
  "fine_tuning_iter self rng passes =
     (let iterable =
        (if mode self = ''training''
         then create_training_data self rng passes (gluonts_dataset self)
         else if mode self = ''validation''
         then create_validation_data self rng (gluonts_dataset self)
         else Inl UnboundLocalError)
      in case iterable of
           Inl e \<Rightarrow> Inl e
         | Inr entries \<Rightarrow> Inr (map (format_transform_fn self) entries))"

text \<open>
  A Python iterator over a finite sequence is the list of the items it has not produced
  yet; \<^verbatim>\<open>next\<close> hands out the first of them, or signals the end (\<open>None\<close>) and leaves
  the iterator exhausted. \<open>consume n\<close> calls \<^verbatim>\<open>next\<close> \<open>n\<close> times.
\<close>

fun next_item :: "'a list \<Rightarrow> 'a option \<times> 'a list" where
  "next_item [] = (None, [])"
| "next_item (x # xs) = (Some x, xs)"

fun consume :: "nat \<Rightarrow> 'a list \<Rightarrow> 'a option list \<times> 'a list" where
  "consume 0 it = ([], it)"
| "consume (Suc n) it =
     (case next_item it of (x, it') \<Rightarrow> (case consume n it' of (xs, it'') \<Rightarrow> (x # xs, it'')))"

text \<open>
  \<^verbatim>\<open>__iter__\<close> assigns to no attribute of the dataset: a call returns the new iterator
  and leaves the object as it was. \<open>second_pass\<close> calls \<^verbatim>\<open>__iter__\<close>, consumes the
  iterator until it signals its end, and calls \<^verbatim>\<open>__iter__\<close> again on the same object;
  its result is the second iterator.
\<close>

definition dataset_iter ::
  "('v, 't) chronos_fine_tuning_dataset \<Rightarrow> (nat \<Rightarrow> nat) \<Rightarrow> nat
     \<Rightarrow> (error + ('v, 't) formatted list) \<times> ('v, 't) chronos_fine_tuning_dataset" where
  "dataset_iter self rng passes = (fine_tuning_iter self rng passes, self)"

definition second_pass ::
  "('v, 't) chronos_fine_tuning_dataset \<Rightarrow> (nat \<Rightarrow> nat) \<Rightarrow> nat
     \<Rightarrow> error + ('v, 't) formatted list" where
  "second_pass self rng passes =
     (case dataset_iter self rng passes of
        (Inl e, self') \<Rightarrow> Inl e
      | (Inr it, self') \<Rightarrow>
          (case consume (Suc (length it)) it of
             (items, exhausted) \<Rightarrow> fst (dataset_iter self' rng passes)))"

text \<open>
  \<^verbatim>\<open>shuffle\<close> returns the dataset itself or a pseudo-shuffling wrapper around it; the
  wrapper's generator is the one its constructor creates.
\<close>

datatype 'd shuffle_result = Self 'd | Wrapped "'d pseudo_shuffled_iterable_dataset"

definition shuffle :: "'d \<Rightarrow> int option \<Rightarrow> generator \<Rightarrow> error + 'd shuffle_result" where
  "shuffle self buffer_size gen =
     (case buffer_size of
        None \<Rightarrow> Inr (Self self)
      | Some B \<Rightarrow>
          if B < 0 then Inl AssertionError
          else if B = 0 then Inr (Self self)
          else Inr (Wrapped (PseudoShuffledIterableDataset self B gen)))"

text \<open>Iterating what \<^verbatim>\<open>shuffle\<close> returned.\<close>

definition iterate :: "('d \<Rightarrow> 'a list) \<Rightarrow> 'd shuffle_result \<Rightarrow> 'a list" where
  "iterate base_iter r =
     (case r of Self d \<Rightarrow> base_iter d | Wrapped w \<Rightarrow> pseudo_shuffled_iter base_iter w)"

subsection \<open>ChronosInferenceDataLoader and timeout_callback\<close>

text \<open>
  Time is an input: the callback is given the reading of \<^verbatim>\<open>time.monotonic()\<close> it takes.
  Readings are real numbers; the rounding of floating-point subtraction is not modelled.
\<close>

type_synonym callback = "real \<Rightarrow> error + unit"

definition timeout_callback :: "real option \<Rightarrow> real \<Rightarrow> callback" where
  "timeout_callback seconds start_time =
     (\<lambda>now. case seconds of
              None \<Rightarrow> Inr ()
            | Some s \<Rightarrow> if now - start_time > s then Inl TimeLimitExceeded else Inr ())"

text \<open>
  \<open>batches\<close> is what the iteration of the parent class, \<^verbatim>\<open>torch.utils.data.DataLoader\<close>,
  produces.
\<close>

record 'b chronos_inference_data_loader =
  batches :: "'b list"
  callback :: callback

definition ChronosInferenceDataLoader ::
  "'b list \<Rightarrow> callback option \<Rightarrow> 'b chronos_inference_data_loader" where
  "ChronosInferenceDataLoader bs on_batch =
     \<lparr> batches = bs,
       callback = (case on_batch of None \<Rightarrow> (\<lambda>now. Inr ()) | Some cb \<Rightarrow> cb) \<rparr>"

text \<open>
  An iteration is recorded as the trace of its events, a batch handed to the consumer or a
  run of the callback at some reading of the clock, together with the exception that ended
  it, if one did. \<open>clock k\<close> is the reading at the \<open>k\<close>-th run of the callback.
\<close>

datatype 'b event = Yield 'b | Callback real

fun loader_loop ::
  "callback \<Rightarrow> (nat \<Rightarrow> real) \<Rightarrow> nat \<Rightarrow> 'b list \<Rightarrow> 'b event list \<times> error option" where
  "loader_loop cb clock k [] = ([], None)"
| "loader_loop cb clock k (item # rest) =
     (case cb (clock k) of
        Inl e \<Rightarrow> ([Yield item, Callback (clock k)], Some e)
      | Inr u \<Rightarrow>
          (case loader_loop cb clock (Suc k) rest of
             (trace, outcome) \<Rightarrow> (Yield item # Callback (clock k) # trace, outcome)))"

definition loader_iter ::
  "'b chronos_inference_data_loader \<Rightarrow> (nat \<Rightarrow> real) \<Rightarrow> 'b event list \<times> error option" where
  "loader_iter self clock = loader_loop (callback self) clock 0 (batches self)"

text \<open>The batches a trace hands to the consumer.\<close>

fun yielded :: "'b event list \<Rightarrow> 'b list" where
  "yielded [] = []"
| "yielded (Yield b # es) = b # yielded es"
| "yielded (Callback t # es) = yielded es"

text \<open>
  Every run of the callback in a trace comes after a batch that was yielded since the
  previous run; \<open>pending\<close> says whether such a batch has been seen.
\<close>

fun callbacks_after_yield :: "bool \<Rightarrow> 'b event list \<Rightarrow> bool" where
  "callbacks_after_yield pending [] = True"
| "callbacks_after_yield pending (Yield b # es) = callbacks_after_yield True es"
| "callbacks_after_yield pending (Callback t # es) = (pending \<and> callbacks_after_yield False es)"

text \<open>The trace of an iteration in which no run of the callback raises.\<close>

fun full_trace :: "(nat \<Rightarrow> real) \<Rightarrow> nat \<Rightarrow> 'b list \<Rightarrow> 'b event list" where
  "full_trace clock k [] = []"
| "full_trace clock k (item # rest) =
     Yield item # Callback (clock k) # full_trace clock (Suc k) rest"

subsection \<open>TimeLimitCallback\<close>

datatype log_record = Warning real

record trainer_control =
  should_training_stop :: bool
  should_log :: bool
  should_evaluate :: bool
  should_save :: bool

record time_limit_callback =
  time_limit :: real
  start_time :: "real option"

definition TimeLimitCallback :: "real \<Rightarrow> time_limit_callback" where
  "TimeLimitCallback limit = \<lparr> time_limit = limit, start_time = None \<rparr>"

definition on_train_begin :: "time_limit_callback \<Rightarrow> real \<Rightarrow> time_limit_callback" where
  "on_train_begin self now = self\<lparr> start_time := Some now \<rparr>"

text \<open>
  \<^verbatim>\<open>on_step_end\<close> returns the control object and the records it logged. Subtracting the
  initial \<^verbatim>\<open>None\<close> from a number raises \<^verbatim>\<open>TypeError\<close>.
\<close>

definition on_step_end ::
  "time_limit_callback \<Rightarrow> real \<Rightarrow> trainer_control \<Rightarrow> error + trainer_control \<times> log_record list" where
  "on_step_end self now control =
     (case start_time self of
        None \<Rightarrow> Inl TypeError
      | Some started \<Rightarrow>
          let elapsed_time = now - started
          in if elapsed_time \<ge> time_limit self
             then Inr (control\<lparr> should_training_stop := True \<rparr>, [Warning (time_limit self)])
             else Inr (control, []))"

subsection \<open>ChronosModel: the context length\<close>

definition maximum_context_length :: int where
  "maximum_context_length = 2048"

record chronos_model =
  model_context_length :: "int option"

text \<open>
  The part of \<^verbatim>\<open>ChronosModel.__init__\<close> that sets \<^verbatim>\<open>self.context_length\<close> from
  \<^verbatim>\<open>hyperparameters.get("context_length")\<close>.
\<close>

definition ChronosModel :: "int option \<Rightarrow> chronos_model" where
  "ChronosModel hp_context_length =
     \<lparr> model_context_length =
         (case hp_context_length of
            None \<Rightarrow> None
          | Some c \<Rightarrow> if c > maximum_context_length then Some maximum_context_length else Some c) \<rparr>"

text \<open>
  The maximum of the lengths of a frame is a number, or the float \<^verbatim>\<open>nan\<close> for a frame
  without items; Python's \<^verbatim>\<open>min(a, b)\<close> returns \<open>b\<close> when \<open>b < a\<close> and \<open>a\<close> otherwise,
  and no comparison with \<^verbatim>\<open>nan\<close> holds.
\<close>

datatype py_number = PyInt int | PyNaN

definition series_max :: "int list \<Rightarrow> py_number" where
  "series_max xs = (case xs of [] \<Rightarrow> PyNaN | x # rest \<Rightarrow> PyInt (fold max rest x))"

definition py_min :: "py_number \<Rightarrow> int \<Rightarrow> py_number" where
  "py_min a b = (case a of PyNaN \<Rightarrow> PyNaN | PyInt x \<Rightarrow> if b < x then PyInt b else PyInt x)"

text \<open>\<^verbatim>\<open>a or b\<close> takes \<open>b\<close> when \<open>a\<close> is \<^verbatim>\<open>None\<close> or zero.\<close>

definition get_context_length :: "chronos_model \<Rightarrow> 'v time_series_data_frame \<Rightarrow> py_number" where
  "get_context_length self data =
     (case model_context_length self of
        Some c \<Rightarrow>
          if c \<noteq> 0 then PyInt c
          else py_min (series_max (num_timesteps_per_item data)) maximum_context_length
      | None \<Rightarrow> py_min (series_max (num_timesteps_per_item data)) maximum_context_length)"

section \<open>Properties\<close>

subsection \<open>The last window of a series\<close>

lemma length_cumsum_from: "length (cumsum_from acc xs) = length xs"
  by (induction xs arbitrary: acc) auto

lemma nth_cumsum_from:
  "k < length xs \<Longrightarrow> cumsum_from acc xs ! k = acc + sum_list (take (Suc k) xs)"
proof (induction xs arbitrary: acc k)
  case Nil
  then show ?case by simp
next
  case (Cons x xs)
  then show ?case by (cases k) (auto simp: algebra_simps)
qed

lemma nth_offsets:
  "k \<le> length xs \<Longrightarrow> (0 # cumsum xs) ! k = sum_list (take k xs)"
  by (cases k) (auto simp: cumsum_def nth_cumsum_from)

lemma astype_int32_id: "- (2 ^ 31) \<le> x \<Longrightarrow> x < 2 ^ 31 \<Longrightarrow> astype_int32 x = x"
  by (simp add: astype_int32_def)

lemma sum_lengths_concat:
  "sum_list (map (\<lambda>s. int (length s)) df) = int (length (concat df))"
  by (induction df) auto

lemma offset_concat:
  "sum_list (take k (num_timesteps_per_item df)) = int (length (concat (take k df)))"
  by (simp add: num_timesteps_per_item_def take_map sum_lengths_concat)

lemma slice_concat:
  assumes "i < length df"
  shows "slice (concat df) (int (length (concat (take i df))))
           (int (length (concat (take (Suc i) df)))) = df ! i"
proof -
  have split: "concat df = concat (take i df) @ df ! i @ concat (drop (Suc i) df)"
    using assms by (metis append_take_drop_id concat.simps(2) concat_append Cons_nth_drop_Suc)
  have suc: "concat (take (Suc i) df) = concat (take i df) @ df ! i"
    using assms by (simp add: take_Suc_conv_app_nth)
  show ?thesis
    unfolding slice_def slice_bound_def Let_def suc
    by (subst (1 2 3 4) split) (simp)
qed

lemma get_context_eq:
  "0 < context_length self \<Longrightarrow>
   get_context self a pad =
     replicate (nat (context_length self) - length a) pad @ drop (length a - nat (context_length self)) a"
  unfolding get_context_def slice_from_def slice_bound_def Let_def
  by (auto simp: nat_diff_distrib' max_def min_def not_less nat_le_iff intro: arg_cong[where f="\<lambda>n. replicate n pad"])

lemma index_nat: "k < length a \<Longrightarrow> index a (int k) = Inr (a ! k)"
  by (simp add: index_def)

lemma index_indptr:
  assumes "k \<le> length df" and "int (length (concat (take k df))) < 2 ^ 31"
  shows "index (map astype_int32 (0 # cumsum (num_timesteps_per_item df))) (int k)
           = Inr (int (length (concat (take k df))))"
proof -
  let ?lens = "num_timesteps_per_item df"
  have len: "length ?lens = length df"
    by (simp add: num_timesteps_per_item_def)
  have v: "(0 # cumsum ?lens) ! k = int (length (concat (take k df)))"
    using assms(1) len by (simp add: nth_offsets offset_concat)
  have k: "k < length (0 # cumsum ?lens)"
    using assms(1) len by (simp add: cumsum_def length_cumsum_from)
  have "index (map astype_int32 (0 # cumsum ?lens)) (int k)
          = Inr (astype_int32 ((0 # cumsum ?lens) ! k))"
    using k by (subst index_nat) (simp_all only: length_map nth_map)
  also have "\<dots> = Inr (int (length (concat (take k df))))"
    unfolding v using assms(2) by (simp add: astype_int32_id)
  finally show ?thesis .
qed

lemma to_numpy_concat: "to_numpy f32 df = concat (map (map (astype_float32 f32)) df)"
  by (simp add: to_numpy_def map_concat)

lemma length_concat_take_map:
  "length (concat (take k (map (map f) df))) = length (concat (take k df))"
  by (simp add: take_map length_concat comp_def)

lemma dataset_getitem_eq:
  assumes "0 < W" and "i < length df"
    and "int (length (concat (take (Suc i) df))) < 2 ^ 31"
  shows "dataset_getitem f32 (Inr q) df W (int i) =
           Inr (replicate (nat W - length (df ! i)) NaN
                @ drop (length (df ! i) - nat W) (map (astype_float32 f32) (df ! i)))"
proof -
  define cast where "cast = map (map (astype_float32 f32)) df"
  define self :: "('a, 'b) chronos_inference_dataset" where
    "self = \<lparr> context_length = W, target_array = to_numpy f32 df, freq = q,
              indptr = map astype_int32 (0 # cumsum (num_timesteps_per_item df)) \<rparr>"
  have init: "ChronosInferenceDataset f32 (Inr q) df W = Inr self"
    using assms(1) by (simp add: ChronosInferenceDataset_def self_def)
  have "length (concat (take i df)) \<le> length (concat (take (Suc i) df))"
    using assms(2) by (simp add: take_Suc_conv_app_nth)
  then have lo: "int (length (concat (take i df))) < 2 ^ 31"
    using assms(3) by linarith
  have i0: "index (indptr self) (int i) = Inr (int (length (concat (take i df))))"
    unfolding self_def chronos_inference_dataset.select_convs
    using assms(2) lo by (intro index_indptr) simp_all
  have "index (indptr self) (int (Suc i)) = Inr (int (length (concat (take (Suc i) df))))"
    unfolding self_def chronos_inference_dataset.select_convs
    using assms(2,3) by (intro index_indptr) simp_all
  then have i1: "index (indptr self) (int i + 1) = Inr (int (length (concat (take (Suc i) df))))"
    by (simp add: add.commute)
  have ctx: "0 < context_length self" "context_length self = W" "target_array self = concat cast"
    using assms(1) by (simp_all add: self_def to_numpy_concat cast_def)
  have i_cast: "i < length cast"
    using assms(2) by (simp add: cast_def)
  have off: "length (concat (take k df)) = length (concat (take k cast))" for k
    by (simp add: cast_def length_concat_take_map)
  have nth: "cast ! i = map (astype_float32 f32) (df ! i)"
    using assms(2) by (simp add: cast_def)
  have "slice (concat cast) (int (length (concat (take i df))))
           (int (length (concat (take (Suc i) df)))) = map (astype_float32 f32) (df ! i)"
    unfolding off slice_concat[OF i_cast] nth ..
  then show ?thesis
    unfolding dataset_getitem_def init getitem_def i0 i1 sum.case ctx(3)
      get_context_eq[OF ctx(1)] ctx(2) by simp
qed

text \<open>
  C1 (amended). For every series of length \<open>L\<close> of a frame stored in a
  \<^verbatim>\<open>ChronosInferenceDataset\<close> constructed with a context length \<open>W > 0\<close>, provided the
  series ends below offset \<open>2 ^ 31\<close> of the flattened array (the offsets are kept as 32-bit
  integers), \<^verbatim>\<open>__getitem__\<close> returns exactly \<open>W\<close> values, the last \<open>min L W\<close> of which
  are the last \<open>min L W\<close> observations of the series, as converted to 32-bit floats when
  the dataset was constructed, in order, and the first \<open>W - L\<close> of which are \<open>NaN\<close>.
\<close>

theorem getitem_last_window:
  assumes "0 < W" and "i < length df"
    and "int (length (concat (take (Suc i) df))) < 2 ^ 31"
  shows "\<exists>r. dataset_getitem f32 (Inr q) df W (int i) = Inr r
           \<and> length r = nat W
           \<and> drop (nat W - min (length (df ! i)) (nat W)) r
               = map (astype_float32 f32)
                   (drop (length (df ! i) - min (length (df ! i)) (nat W)) (df ! i))
           \<and> take (nat W - length (df ! i)) r = replicate (nat W - length (df ! i)) NaN"
  unfolding dataset_getitem_eq[OF assms]
  by (auto simp: min_def drop_map)

text \<open>
  The first example of the spec extended by an observation that 32-bit floats cannot
  hold: the series 1, 2, 16777217 with context length 5. The conversion used here agrees
  with the rounding to 32-bit floats on these three values.
\<close>

theorem getitem_last_window_witness:
  "dataset_getitem (\<lambda>v. if v = 16777217 then 16777216 else v) (Inr ''h'')
       [[Val (1::int), Val 2, Val 16777217]] 5 0
     = Inr [NaN, NaN, Val 1, Val 2, Val 16777216]"
  using getitem_last_window[of 5 0 "[[Val (1::int), Val 2, Val 16777217]]"
      "\<lambda>v. if v = 16777217 then 16777216 else v" "''h''"]
  by (simp add: dataset_getitem_def ChronosInferenceDataset_def num_timesteps_per_item_def
      cumsum_def astype_int32_def getitem_def index_def to_numpy_def slice_def slice_bound_def
      get_context_def slice_from_def astype_float32_def eval_nat_numeral)

text \<open>The second example of the spec: the last three values of the series 1, ..., 6.\<close>

lemma getitem_truncates_example:
  "dataset_getitem id (Inr ''h'')
       [[Val (1::int), Val 2, Val 3], [Val 1, Val 2, Val 3, Val 4, Val 5, Val 6]] 3 1
     = Inr [Val 4, Val 5, Val 6]"
  by (simp add: dataset_getitem_def ChronosInferenceDataset_def num_timesteps_per_item_def
      cumsum_def astype_int32_def getitem_def index_def to_numpy_def slice_def slice_bound_def
      get_context_def slice_from_def astype_float32_def eval_nat_numeral)

text \<open>
  As stated, without the bound on the offsets, C1 fails: for a single series of \<open>2 ^ 31\<close>
  observations, all of them 1 (which the conversion to 32-bit floats leaves as it is), the
  end offset wraps to \<open>- 2 ^ 31\<close>, the slice is empty, and with context length 1 the result
  is the sentinel instead of the last observation.
\<close>

theorem getitem_offset_overflow:
  "dataset_getitem id (Inr ''h'') [replicate (2 ^ 31) (Val (1::int))] 1 0 = Inr [NaN]
   \<and> map (astype_float32 id) (drop (2 ^ 31 - 1) (replicate (2 ^ 31) (Val (1::int)))) = [Val 1]"
  by (simp add: dataset_getitem_def ChronosInferenceDataset_def num_timesteps_per_item_def
      cumsum_def astype_int32_def getitem_def index_def to_numpy_def slice_def slice_bound_def
      get_context_def slice_from_def astype_float32_def)

subsection \<open>Configuration errors\<close>

lemma index_error: "index a i = Inl e \<Longrightarrow> e = IndexError"
  by (auto simp: index_def split: if_splits)

lemma getitem_error: "getitem self idx = Inl e \<Longrightarrow> e = IndexError"
  by (auto simp: getitem_def split: sum.splits dest: index_error)

text \<open>
  C7. A failed assertion is the configuration error of the code. Constructing the inference
  dataset with a context length that is not positive fails at construction, and asking
  for a shuffle with a negative buffer size fails in \<^verbatim>\<open>shuffle\<close>, before an iterable
  exists; no access to a constructed inference dataset fails with this error.
\<close>

theorem configuration_errors_eager:
  "(W \<le> 0 \<longrightarrow> ChronosInferenceDataset f32 freq_read df W = Inl AssertionError)
   \<and> (B < 0 \<longrightarrow> shuffle self (Some B) gen = Inl AssertionError)
   \<and> (ChronosInferenceDataset f32 freq_read df W = Inr ds \<longrightarrow> getitem ds idx \<noteq> Inl AssertionError)"
  by (auto simp: ChronosInferenceDataset_def shuffle_def dest: getitem_error)

theorem configuration_errors_eager_witness:
  "ChronosInferenceDataset id (Inr ''h'') [[Val (1::int)]] 0 = Inl AssertionError
   \<and> shuffle [Val (1::int)] (Some (- 1)) (\<lambda>k. 0) = Inl AssertionError
   \<and> getitem \<lparr> context_length = 1, target_array = [Val (1::int)], freq = ''h'',
                indptr = [0, 1] \<rparr> 0
        \<noteq> Inl AssertionError"
  using configuration_errors_eager[of 0 id "Inr ''h''" "[[Val (1::int)]]" "- 1" "[Val (1::int)]"
      "\<lambda>k. 0"
      "\<lparr> context_length = 1, target_array = [Val (1::int)], freq = ''h'', indptr = [0, 1] \<rparr>" 0]
    configuration_errors_eager[of 1 id "Inr ''h''" "[[Val (1::int)]]" 0 "[Val (1::int)]" "\<lambda>k. 0"
      "\<lparr> context_length = 1, target_array = [Val (1::int)], freq = ''h'', indptr = [0, 1] \<rparr>" 0]
  by (simp add: ChronosInferenceDataset_def num_timesteps_per_item_def cumsum_def
      astype_int32_def to_numpy_def astype_float32_def)

subsection \<open>Pseudo-shuffling\<close>

lemma drain_Nil: "drain g [] = []"
  by (simp add: drain.simps)

lemma drain_nonempty:
  "buf \<noteq> [] \<Longrightarrow>
   drain g buf = buf ! randint (length buf) g
                 # drain (advance g) (pop_rest (randint (length buf) g) buf)"
  by (subst drain.simps) (simp add: Let_def)

lemma pop_mset:
  "idx < length buf \<Longrightarrow> add_mset (buf ! idx) (mset (pop_rest idx buf)) = mset buf"
proof -
  assume "idx < length buf"
  then have "buf = take idx buf @ buf ! idx # drop (Suc idx) buf"
    by (simp add: id_take_nth_drop)
  then have "mset buf = mset (take idx buf @ buf ! idx # drop (Suc idx) buf)"
    by simp
  then show ?thesis
    by (simp add: pop_rest_def)
qed

lemma randint_less: "0 < n \<Longrightarrow> randint n g < n"
  by (simp add: randint_def)

lemma mset_drain: "mset (drain g buf) = mset buf"
proof (induction g buf rule: drain.induct)
  case (1 g buf)
  show ?case
  proof (cases "buf = []")
    case True
    then show ?thesis by (simp add: drain_Nil)
  next
    case False
    then have lt: "randint (length buf) g < length buf"
      by (simp add: randint_less)
    show ?thesis
      using "1.IH"[OF False refl] pop_mset[OF lt]
      by (simp add: drain_nonempty[OF False])
  qed
qed

lemma mset_fill: "mset (fill B g buf xs) = mset buf + mset xs"
proof (induction xs arbitrary: g buf)
  case Nil
  then show ?case by (simp add: mset_drain)
next
  case (Cons x xs)
  have lt: "randint (length (buf @ [x])) g < length (buf @ [x])"
    by (rule randint_less) simp
  have "add_mset ((buf @ [x]) ! randint (length (buf @ [x])) g)
          (mset (pop_rest (randint (length (buf @ [x])) g) (buf @ [x]))) = add_mset x (mset buf)"
    using pop_mset[OF lt] by simp
  then show ?case
    by (simp add: Let_def Cons.IH)
qed

lemma fill_one: "fill 1 g [] xs = xs"
  by (induction xs arbitrary: g) (simp_all add: randint_def pop_rest_def Let_def drain_Nil)

lemma fill_nonpos: "B \<le> 0 \<Longrightarrow> fill B g [] xs = xs"
  by (induction xs arbitrary: g) (simp_all add: randint_def pop_rest_def Let_def drain_Nil)

text \<open>
  C2. For every buffer size \<open>B\<close>, every state of the generator and every finite input of
  \<open>N\<close> elements, in particular for \<open>0 \<le> B < N\<close>, iterating the pseudo-shuffled dataset
  emits exactly \<open>N\<close> elements, and the emitted elements are, as a multiset, the elements of
  the input: none is lost and none is duplicated.
\<close>

theorem pseudo_shuffle_permutes:
  "mset (pseudo_shuffled_iter base_iter (PseudoShuffledIterableDataset d B gen)) = mset (base_iter d)
   \<and> length (pseudo_shuffled_iter base_iter (PseudoShuffledIterableDataset d B gen))
       = length (base_iter d)"
proof -
  have m: "mset (pseudo_shuffled_iter base_iter (PseudoShuffledIterableDataset d B gen))
             = mset (base_iter d)"
    by (simp add: pseudo_shuffled_iter_def PseudoShuffledIterableDataset_def mset_fill)
  show ?thesis
    using m mset_eq_length by blast
qed

text \<open>
  C5. Asking for a shuffle with a buffer size of 0, or with none, returns the dataset
  itself, so what is iterated is the input sequence, element for element.
\<close>

theorem shuffle_zero_or_none_identity:
  "shuffle self None gen = Inr (Self self)
   \<and> shuffle self (Some 0) gen = Inr (Self self)
   \<and> iterate base_iter (Self self) = base_iter self"
  by (simp add: shuffle_def iterate_def)

text \<open>
  C10. With a buffer size of 1 a wrapper is built, and iterating it emits the input in
  its own order: each element is appended to the empty buffer and popped at once.
\<close>

theorem shuffle_one_identity:
  "shuffle self (Some 1) gen = Inr (Wrapped (PseudoShuffledIterableDataset self 1 gen))
   \<and> iterate base_iter (Wrapped (PseudoShuffledIterableDataset self 1 gen)) = base_iter self"
  by (simp add: shuffle_def iterate_def pseudo_shuffled_iter_def PseudoShuffledIterableDataset_def
      fill_one)

text \<open>A buffer of two elements does reorder: here the second element comes out first.\<close>

lemma shuffle_two_example:
  "pseudo_shuffled_iter id (PseudoShuffledIterableDataset [1, 2, 3 :: int] 2 (\<lambda>k. 1)) = [2, 3, 1]"
  by (simp add: pseudo_shuffled_iter_def PseudoShuffledIterableDataset_def randint_def
      advance_def pop_rest_def drain_nonempty drain_Nil Let_def)

subsection \<open>The deadline of the inference data loader\<close>

lemma timeout_callback_raises:
  "timeout_callback seconds t0 now = Inl e \<longleftrightarrow>
     e = TimeLimitExceeded \<and> (\<exists>s. seconds = Some s \<and> now - t0 > s)"
  by (auto simp: timeout_callback_def split: option.splits)

lemma loader_loop_after_yield: "callbacks_after_yield p (fst (loader_loop cb clock k bs))"
  by (induction bs arbitrary: k p) (simp_all add: case_prod_unfold split: sum.splits)

lemma loader_loop_no_raise:
  "(\<And>t. cb t = Inr ()) \<Longrightarrow> loader_loop cb clock k bs = (full_trace clock k bs, None)"
  by (induction bs arbitrary: k) simp_all

lemma yielded_full_trace: "yielded (full_trace clock k bs) = bs"
  by (induction bs arbitrary: k) simp_all

lemma loader_loop_first:
  "\<exists>more. yielded (fst (loader_loop cb clock k (b # bs))) = b # more"
  by (simp add: case_prod_unfold split: sum.splits)

text \<open>
  C4. In every iteration of the inference data loader each run of the deadline callback
  comes after a batch has been yielded. The callback raises \<^verbatim>\<open>TimeLimitExceeded\<close> if
  and only if a time limit was configured and the time elapsed since the construction of
  the callback exceeds it, and raises nothing else. Hence without a time limit the
  iteration yields every batch and ends without an exception, whatever the clock shows,
  and with a time limit the first batch is yielded whatever the clock shows, as long as
  there is one.
\<close>

theorem loader_deadline_after_yield:
  "callbacks_after_yield False
     (fst (loader_iter (ChronosInferenceDataLoader bs (Some (timeout_callback seconds t0))) clock))
   \<and> (timeout_callback seconds t0 now = Inl e
        \<longleftrightarrow> e = TimeLimitExceeded \<and> (\<exists>T. seconds = Some T \<and> now - t0 > T))
   \<and> loader_iter (ChronosInferenceDataLoader bs (Some (timeout_callback None t0))) clock
        = (full_trace clock 0 bs, None)
   \<and> yielded (full_trace clock 0 bs) = bs
   \<and> (bs \<noteq> [] \<longrightarrow>
        (\<exists>more. yielded (fst (loader_iter
            (ChronosInferenceDataLoader bs (Some (timeout_callback (Some T) t0))) clock))
          = hd bs # more))"
proof -
  have a: "callbacks_after_yield False
     (fst (loader_iter (ChronosInferenceDataLoader bs (Some (timeout_callback seconds t0))) clock))"
    by (simp add: loader_iter_def loader_loop_after_yield)
  have b: "loader_iter (ChronosInferenceDataLoader bs (Some (timeout_callback None t0))) clock
        = (full_trace clock 0 bs, None)"
    by (simp add: loader_iter_def ChronosInferenceDataLoader_def loader_loop_no_raise
        timeout_callback_def)
  have c: "bs \<noteq> [] \<longrightarrow>
        (\<exists>more. yielded (fst (loader_iter
            (ChronosInferenceDataLoader bs (Some (timeout_callback (Some T) t0))) clock))
          = hd bs # more)"
    using loader_loop_first[of "timeout_callback (Some T) t0" clock 0 "hd bs" "tl bs"]
    by (cases bs) (simp_all add: loader_iter_def ChronosInferenceDataLoader_def)
  show ?thesis
    using a b c timeout_callback_raises[of seconds t0 now e] yielded_full_trace[of clock 0 bs]
    by blast
qed

text \<open>
  Two batches and a limit of 5 seconds, the first batch taking 10 seconds: the first batch
  is yielded, then the callback raises; without a limit both batches are yielded.
\<close>

theorem loader_deadline_after_yield_witness:
  "loader_iter (ChronosInferenceDataLoader [''b1'', ''b2''] (Some (timeout_callback (Some 5) 0)))
       (\<lambda>k. 10)
     = ([Yield ''b1'', Callback 10], Some TimeLimitExceeded)
   \<and> loader_iter (ChronosInferenceDataLoader [''b1'', ''b2''] (Some (timeout_callback None 0)))
       (\<lambda>k. 10)
     = ([Yield ''b1'', Callback 10, Yield ''b2'', Callback 10], None)
   \<and> [''b1'', ''b2''] \<noteq> []"
  using loader_deadline_after_yield[of "[''b1'', ''b2'']" "Some 5" 0 "\<lambda>k. 10" 10
      TimeLimitExceeded 5]
  by (simp add: loader_iter_def ChronosInferenceDataLoader_def timeout_callback_def)

subsection \<open>The time limit of fine-tuning\<close>

text \<open>
  C8. The guard records the time at which training begins. At the end of a step it asks
  for training to stop, with a warning, if and only if the time elapsed since then has
  reached the limit; otherwise it leaves the control object as it is. It does not raise.
  The guard itself is not changed by the end of a step, so this holds at every step.
\<close>

theorem time_limit_callback_soft_stop:
  "start_time (on_train_begin (TimeLimitCallback limit) t0) = Some t0
   \<and> time_limit (on_train_begin (TimeLimitCallback limit) t0) = limit
   \<and> on_step_end (on_train_begin (TimeLimitCallback limit) t0) now control
       = Inr (if now - t0 \<ge> limit
              then (control\<lparr> should_training_stop := True \<rparr>, [Warning limit])
              else (control, []))"
  by (simp add: on_train_begin_def TimeLimitCallback_def on_step_end_def)

subsection \<open>The cap on the context length\<close>

lemma series_max_Cons: "series_max (x # xs) = PyInt (Max (set (x # xs)))"
  unfolding series_max_def list.case by (metis Max.set_eq_fold)

lemma py_min_PyInt: "py_min (PyInt m) b = PyInt (min m b)"
  by (simp add: py_min_def min_def)

lemma get_context_length_le:
  "get_context_length (ChronosModel hp) data = PyInt n \<Longrightarrow> n \<le> 2048"
  by (auto simp: get_context_length_def ChronosModel_def py_min_def maximum_context_length_def
      split: option.splits if_splits py_number.splits)

lemma get_context_length_inferred:
  assumes "data \<noteq> []"
  shows "get_context_length (ChronosModel None) data
     = PyInt (min (Max (set (num_timesteps_per_item data))) 2048)"
proof -
  obtain x xs where "num_timesteps_per_item data = x # xs"
    using assms by (cases data) (auto simp: num_timesteps_per_item_def)
  then show ?thesis
    by (simp only: get_context_length_def ChronosModel_def chronos_model.simps option.case
        series_max_Cons py_min_PyInt maximum_context_length_def)
qed

text \<open>
  C9. The context length in effect never exceeds 2048. A configured context length above
  2048 is replaced by 2048 when the model is constructed, and when none is configured the
  value inferred for a frame that has items is the minimum of the longest series length
  and 2048.
\<close>

theorem context_length_capped:
  "(get_context_length (ChronosModel hp) data = PyInt n \<longrightarrow> n \<le> 2048)
   \<and> (c > 2048 \<longrightarrow> model_context_length (ChronosModel (Some c)) = Some 2048)
   \<and> (data \<noteq> [] \<longrightarrow>
        get_context_length (ChronosModel None) data
          = PyInt (min (Max (set (num_timesteps_per_item data))) 2048))"
  using get_context_length_le[of hp data n] get_context_length_inferred[of data]
  by (simp add: ChronosModel_def maximum_context_length_def)

theorem context_length_capped_witness:
  "get_context_length (ChronosModel (Some 4096)) [[Val (1::int), Val 2], [Val 3]] = PyInt 2048
   \<and> model_context_length (ChronosModel (Some 4096)) = Some 2048
   \<and> get_context_length (ChronosModel None) [[Val (1::int), Val 2], [Val 3]] = PyInt 2"
  using context_length_capped[of "Some 4096" "[[Val (1::int), Val 2], [Val 3]]" 2048 4096]
  by (simp add: get_context_length_def ChronosModel_def maximum_context_length_def
      num_timesteps_per_item_def)

subsection \<open>Windows for fine-tuning\<close>

lemma consume_all: "consume (length xs + m) xs = (map Some xs @ replicate m None, [])"
proof (induction xs)
  case Nil
  show ?case by (induction m) simp_all
next
  case (Cons x xs)
  then show ?case by simp
qed

lemma apply_transform_validation:
  "instance_sampler sp = ValidationSplitSampler mf \<Longrightarrow>
   apply_transform sp rng k data
     = map (\<lambda>target. split_at sp target (length target - nat mf))
         (filter (\<lambda>target. mf \<le> int (length target)) data)"
  by (induction data arbitrary: k) (simp_all add: flatmap_transform_def sample_indices_def)

lemma flatmap_short:
  "instance_sampler sp = ExpectedNumInstanceSampler n mf \<Longrightarrow> int (length target) < mf \<Longrightarrow>
   flatmap_transform sp r target = []"
  by (simp add: flatmap_transform_def sample_indices_def)

lemma apply_transform_training_set:
  "instance_sampler sp = ExpectedNumInstanceSampler n mf \<Longrightarrow>
   w \<in> set (apply_transform sp rng k data) \<Longrightarrow>
   \<exists>target\<in>set data. \<exists>i. mf \<le> int (length target) \<and> int i + mf \<le> int (length target) \<and> w = split_at sp target i"
proof (induction data arbitrary: k)
  case Nil
  then show ?case by simp
next
  case (Cons entry rest)
  from Cons.prems(2) consider
    (here) "w \<in> set (flatmap_transform sp (rng k) entry)"
    | (later) "w \<in> set (apply_transform sp rng (Suc k) rest)"
    by auto
  then show ?case
  proof cases
    case here
    show ?thesis
    proof (cases "int (length entry) < mf")
      case True
      then show ?thesis using here Cons.prems(1) by (simp add: flatmap_short)
    next
      case False
      let ?i = "rng k mod (length entry - nat mf + 1)"
      have w: "w = split_at sp entry ?i"
        using here False Cons.prems(1) by (simp add: flatmap_transform_def sample_indices_def)
      have "?i \<le> length entry - nat mf"
        by (metis Suc_eq_plus1 less_Suc_eq_le mod_less_divisor zero_less_Suc)
      then have "int ?i + mf \<le> int (length entry)"
        using False by linarith
      then show ?thesis using w False by (intro bexI[of _ entry] exI[of _ ?i]) simp_all
    qed
  next
    case later
    from Cons.IH[OF Cons.prems(1) later] show ?thesis by auto
  qed
qed

lemma create_instance_splitter_validation:
  "create_instance_splitter self ''validation''
     = Inr \<lparr> instance_sampler = ValidationSplitSampler (prediction_length self),
             past_length = ft_context_length self, future_length = prediction_length self \<rparr>"
  by (simp add: create_instance_splitter_def)

lemma create_instance_splitter_training:
  "create_instance_splitter self ''training''
     = Inr \<lparr> instance_sampler = ExpectedNumInstanceSampler 1.0 (prediction_length self),
             past_length = ft_context_length self, future_length = prediction_length self \<rparr>"
  by (simp add: create_instance_splitter_def)

lemma set_infinite_iterable: "set (infinite_iterable passes data) \<subseteq> set data"
  by (induction passes) (auto simp: infinite_iterable_def)

text \<open>
  C3 (amended). For a frame of \<open>K\<close> series, each of at least as many observations as the
  prediction length, iterating a validation-mode \<^verbatim>\<open>ChronosFineTuningDataset\<close> yields
  exactly \<open>K\<close> windows, the \<open>i\<close>-th being the window of the \<open>i\<close>-th series, cut so that the
  prediction length is what follows the split; a series with less history than the
  context length gets a context padded on the left. Each iterator is single-pass: once
  its \<open>K\<close> windows are consumed, every further request finds it exhausted. The dataset
  itself can be iterated again without being constructed again: a new call of
  \<^verbatim>\<open>__iter__\<close> builds the validation data anew and yields the same \<open>K\<close> windows.
\<close>

theorem validation_one_window_per_series:
  assumes "ChronosFineTuningDataset df W P tok ''validation'' = Inr ds"
    and "\<forall>target \<in> set df. P \<le> int (length target)"
  shows "\<exists>sp ws. create_instance_splitter ds ''validation'' = Inr sp
           \<and> fine_tuning_iter ds rng passes = Inr ws
           \<and> length ws = length df
           \<and> ws = map (\<lambda>target. format_transform_fn ds
                          (split_at sp target (length target - nat P))) df
           \<and> consume (length df + m) ws = (map Some ws @ replicate m None, [])
           \<and> second_pass ds rng passes = Inr ws"
proof -
  have ds: "gluonts_dataset ds = df" "prediction_length ds = P" "mode ds = ''validation''"
    using assms(1) by (auto simp: ChronosFineTuningDataset_def)
  define sp where "sp = \<lparr> instance_sampler = ValidationSplitSampler P,
             past_length = ft_context_length ds, future_length = P \<rparr>"
  define ws where "ws = map (\<lambda>target. format_transform_fn ds
                          (split_at sp target (length target - nat P))) df"
  have sp: "create_instance_splitter ds ''validation'' = Inr sp"
    by (simp add: create_instance_splitter_validation ds sp_def)
  have all: "filter (\<lambda>target. P \<le> int (length target)) df = df"
    using assms(2) by (simp add: filter_id_conv)
  have "apply_transform sp rng 0 df
          = map (\<lambda>target. split_at sp target (length target - nat P))
              (filter (\<lambda>target. P \<le> int (length target)) df)"
    by (rule apply_transform_validation) (simp add: sp_def)
  then have it: "fine_tuning_iter ds rng passes = Inr ws"
    by (simp add: fine_tuning_iter_def ds create_validation_data_def sp ws_def comp_def all)
  have len: "length ws = length df"
    by (simp add: ws_def)
  have "consume (length ws + m) ws = (map Some ws @ replicate m None, [])"
    by (rule consume_all)
  moreover have "second_pass ds rng passes = Inr ws"
    by (simp add: second_pass_def dataset_iter_def it case_prod_unfold)
  ultimately show ?thesis
    using sp it len ws_def by auto
qed

text \<open>
  Two series of three and of two observations, with context length 2 and prediction
  length 2: two windows, in the order of the series, the second with a context that is
  all padding.
\<close>

theorem validation_one_window_per_series_witness:
  "ChronosFineTuningDataset [[Val (1::int), Val 2, Val 3], [Val 4, Val 5]] 2 2 None ''validation''
     = Inr \<lparr> gluonts_dataset = [[Val 1, Val 2, Val 3], [Val 4, Val 5]], tokenizer = None,
             ft_context_length = 2, prediction_length = 2, mode = ''validation'' \<rparr>
   \<and> (2::int) \<le> int (length [Val (1::int), Val 2, Val 3])
   \<and> (2::int) \<le> int (length [Val (4::int), Val 5])
   \<and> fine_tuning_iter
        \<lparr> gluonts_dataset = [[Val (1::int), Val 2, Val 3], [Val 4, Val 5]],
          tokenizer = (None :: (int window \<Rightarrow> unit) option),
          ft_context_length = 2, prediction_length = 2, mode = ''validation'' \<rparr> (\<lambda>k. 0) 1
     = Inr [ChronosBoltFormat [NaN, Val 1] [Val 2, Val 3],
            ChronosBoltFormat [NaN, NaN] [Val 4, Val 5]]"
  using validation_one_window_per_series[of "[[Val (1::int), Val 2, Val 3], [Val 4, Val 5]]" 2 2
      "None :: (int window \<Rightarrow> unit) option"
      "\<lparr> gluonts_dataset = [[Val (1::int), Val 2, Val 3], [Val 4, Val 5]], tokenizer = None,
         ft_context_length = 2, prediction_length = 2, mode = ''validation'' \<rparr>" "\<lambda>k. 0" 1 0]
  by (simp add: ChronosFineTuningDataset_def fine_tuning_iter_def create_validation_data_def
      create_instance_splitter_def flatmap_transform_def sample_indices_def split_at_def
      format_transform_fn_def to_chronos_bolt_format_def eval_nat_numeral)

text \<open>
  As stated, C3 fails on both counts. A frame of two series, the second shorter than the
  prediction length of 2, yields one window, not two: the short series gets none. And
  after a complete pass, a second call of \<^verbatim>\<open>__iter__\<close> on the same object, which has
  not been constructed again, yields that window once more.
\<close>

theorem validation_short_series_and_second_pass:
  "fine_tuning_iter
     \<lparr> gluonts_dataset = [[Val (1::int), Val 2, Val 3], [Val 4]],
       tokenizer = (None :: (int window \<Rightarrow> unit) option),
       ft_context_length = 2, prediction_length = 2, mode = ''validation'' \<rparr> id 1
   = Inr [ChronosBoltFormat [NaN, Val 1] [Val 2, Val 3]]
   \<and> second_pass
     \<lparr> gluonts_dataset = [[Val (1::int), Val 2, Val 3], [Val 4]],
       tokenizer = (None :: (int window \<Rightarrow> unit) option),
       ft_context_length = 2, prediction_length = 2, mode = ''validation'' \<rparr> id 1
   = Inr [ChronosBoltFormat [NaN, Val 1] [Val 2, Val 3]]"
  by (simp add: second_pass_def dataset_iter_def fine_tuning_iter_def create_validation_data_def
      create_instance_splitter_def flatmap_transform_def sample_indices_def split_at_def
      format_transform_fn_def to_chronos_bolt_format_def eval_nat_numeral)

text \<open>
  C6. In training mode a series shorter than the prediction length never produces a
  window, whatever the random draw and in every pass: the sampler, whose minimum future
  margin is the prediction length, has no split point for it. Every window of the first
  passes over the data, however many, is cut from a series at least as long as the
  prediction length, at a split point followed by at least that many observations.
\<close>

theorem training_skips_short_series:
  assumes "ChronosFineTuningDataset df W P tok ''training'' = Inr ds"
  shows "\<exists>sp ws. create_instance_splitter ds ''training'' = Inr sp
           \<and> (\<forall>target r. int (length target) < P \<longrightarrow> flatmap_transform sp r target = [])
           \<and> fine_tuning_iter ds rng passes = Inr ws
           \<and> (\<forall>w \<in> set ws. \<exists>target \<in> set df. \<exists>i.
                 P \<le> int (length target) \<and> int i + P \<le> int (length target)
                 \<and> w = format_transform_fn ds (split_at sp target i))"
proof -
  have ds: "gluonts_dataset ds = df" "prediction_length ds = P" "mode ds = ''training''"
    using assms by (auto simp: ChronosFineTuningDataset_def)
  define sp where "sp = \<lparr> instance_sampler = ExpectedNumInstanceSampler 1.0 P,
             past_length = ft_context_length ds, future_length = P \<rparr>"
  have smp: "instance_sampler sp = ExpectedNumInstanceSampler 1.0 P"
    by (simp add: sp_def)
  define es where "es = apply_transform sp rng 0 (infinite_iterable passes df)"
  have sp: "create_instance_splitter ds ''training'' = Inr sp"
    by (simp add: create_instance_splitter_training ds sp_def)
  have it: "fine_tuning_iter ds rng passes = Inr (map (format_transform_fn ds) es)"
    by (simp add: fine_tuning_iter_def ds create_training_data_def sp es_def)
  have short: "\<forall>target r. int (length target) < P \<longrightarrow> flatmap_transform sp r target = []"
    using flatmap_short[OF smp] by blast
  have "\<exists>target \<in> set df. \<exists>i. P \<le> int (length target) \<and> int i + P \<le> int (length target)
          \<and> w = format_transform_fn ds (split_at sp target i)"
    if "w \<in> set (map (format_transform_fn ds) es)" for w
  proof -
    from that obtain e where e: "e \<in> set es" and w: "w = format_transform_fn ds e"
      by auto
    from apply_transform_training_set[OF smp e[unfolded es_def]]
    obtain target i where "target \<in> set (infinite_iterable passes df)"
      and "P \<le> int (length target)" and "int i + P \<le> int (length target)"
      and "e = split_at sp target i"
      by blast
    then show ?thesis
      using w set_infinite_iterable[of passes df] by blast
  qed
  then show ?thesis
    using sp it short by blast
qed

text \<open>
  Two passes over a series of three observations and a series of one, with a prediction
  length of 2: only the first series gives windows.
\<close>

theorem training_skips_short_series_witness:
  "ChronosFineTuningDataset [[Val (1::int), Val 2, Val 3], [Val 4]] 2 2 None ''training''
     = Inr \<lparr> gluonts_dataset = [[Val 1, Val 2, Val 3], [Val 4]], tokenizer = None,
             ft_context_length = 2, prediction_length = 2, mode = ''training'' \<rparr>
   \<and> fine_tuning_iter
        \<lparr> gluonts_dataset = [[Val (1::int), Val 2, Val 3], [Val 4]],
          tokenizer = (None :: (int window \<Rightarrow> unit) option),
          ft_context_length = 2, prediction_length = 2, mode = ''training'' \<rparr> (\<lambda>k. k) 2
     = Inr [ChronosBoltFormat [NaN, NaN] [Val 1, Val 2], ChronosBoltFormat [NaN, NaN] [Val 1, Val 2]]"
  using training_skips_short_series[of "[[Val (1::int), Val 2, Val 3], [Val 4]]" 2 2
      "None :: (int window \<Rightarrow> unit) option"
      "\<lparr> gluonts_dataset = [[Val (1::int), Val 2, Val 3], [Val 4]], tokenizer = None,
         ft_context_length = 2, prediction_length = 2, mode = ''training'' \<rparr>" "\<lambda>k. k" 2]
  by (simp add: ChronosFineTuningDataset_def fine_tuning_iter_def create_training_data_def
      create_instance_splitter_def flatmap_transform_def sample_indices_def split_at_def
      format_transform_fn_def to_chronos_bolt_format_def infinite_iterable_def eval_nat_numeral)

end
